theory Spec2Isabelle
  imports Main "HOL-Library.AList" "HOL-Library.Sublist"
begin

section \<open>The event model\<close>

text \<open>
  The event bus of the package \<^verbatim>\<open>golang_utils\<close>. A Go \<^verbatim>\<open>Handler\<close> is a function value, that
  is a reference to a closure; an event can carry a slice of handlers in its data map and a
  handler takes an event, so handlers are modelled by reference: a \<open>Handler\<close> is the identity
  of a closure, and what the closure does is looked up in a handler environment (see
  \<open>henv\<close> below).

  A value of the interface \<^verbatim>\<open>any\<close> is one of the values the bus itself stores (a string, an
  event, a slice of handlers) or \<^verbatim>\<open>nil\<close>. A Go slice is \<open>None\<close> when it is \<^verbatim>\<open>nil\<close>.

  A non-nil value of the interface \<^verbatim>\<open>Event\<close> is a pointer to a struct that embeds
  \<^verbatim>\<open>DefaultEvent\<close> (\<^verbatim>\<open>LogEvent\<close>, \<^verbatim>\<open>DeadLetterEvent\<close>, \<^verbatim>\<open>ErrorEvent\<close>, the tests'
  \<^verbatim>\<open>TestEvent\<close>): \<open>gotype\<close> is its dynamic type, written as \<^verbatim>\<open>reflect.TypeOf(e).String()\<close>
  prints it, and \<open>base\<close> the embedded record, whose methods are promoted. Two dynamic types
  are taken to be equal exactly when they print alike. Errors are modelled by their
  message, the string \<^verbatim>\<open>err.Error()\<close> returns.
\<close>

type_synonym Handler = nat

datatype any = AnyNil | AnyString string | AnyEvent event | AnyHandlers "Handler list option"
and DefaultEvent = DefaultEvent (Msg: string) (TypeName: string)
    (DataMap: "(string \<Rightarrow> any option) option") (Err: "string option") (Dmn: string)
and event = Event (gotype: string) (base: DefaultEvent)

definition Name :: "DefaultEvent \<Rightarrow> string" where
  "Name e = TypeName e"

definition Data :: "DefaultEvent \<Rightarrow> (string \<Rightarrow> any option) option" where
  "Data e = DataMap e"

definition Message :: "DefaultEvent \<Rightarrow> string" where
  "Message e = Msg e"

text \<open>Indexing a Go map with the two-value form: a \<^verbatim>\<open>nil\<close> map holds no key, and reading it
  is not an error.\<close>

definition index_map :: "(string \<Rightarrow> any option) option \<Rightarrow> string \<Rightarrow> any option" where
  "index_map m key = (case m of None \<Rightarrow> None | Some f \<Rightarrow> f key)"

definition Get :: "DefaultEvent \<Rightarrow> string \<Rightarrow> any" where
  "Get e key = (case index_map (DataMap e) key of Some v \<Rightarrow> v | None \<Rightarrow> AnyString ''???'')"

definition Error_ev :: "DefaultEvent \<Rightarrow> string option" where
  "Error_ev e = Err e"

definition Domain_ev :: "DefaultEvent \<Rightarrow> string" where
  "Domain_ev e = Dmn e"

definition GetDomain :: "DefaultEvent \<Rightarrow> any" where
  "GetDomain e = Get e ''domain''"

text \<open>Go's \<^verbatim>\<open>strings.HasPrefix(s, prefix)\<close> and \<^verbatim>\<open>strings.TrimLeft(s, cutset)\<close>, on byte
  strings. \<^verbatim>\<open>TrimLeft\<close> removes every leading character that occurs in the cutset.\<close>

definition HasPrefix :: "string \<Rightarrow> string \<Rightarrow> bool" where
  "HasPrefix s pre = (length pre \<le> length s \<and> take (length pre) s = pre)"

definition TrimLeft :: "string \<Rightarrow> string \<Rightarrow> string" where
  "TrimLeft s cutset = dropWhile (\<lambda>c. c \<in> set cutset) s"

definition Matches :: "DefaultEvent \<Rightarrow> string \<Rightarrow> bool" where
  "Matches e filter_str =
     (if filter_str = ''*'' then True
      else if HasPrefix filter_str ''!'' then
        (if HasPrefix (Name e) (TrimLeft filter_str ''!'') then False else True)
      else HasPrefix (Name e) filter_str)"

text \<open>The filter match as the specification words it: a filter that begins with \<^verbatim>\<open>!\<close> has
  that one \<^verbatim>\<open>!\<close> stripped, and the rest is the excluded prefix.\<close>

definition Matches_spec :: "DefaultEvent \<Rightarrow> string \<Rightarrow> bool" where
  "Matches_spec e filter_str =
     (if filter_str = ''*'' then True
      else if HasPrefix filter_str ''!'' then \<not> HasPrefix (Name e) (tl filter_str)
      else HasPrefix (Name e) filter_str)"

section \<open>Registrations and the bus\<close>

record Registration =
  reg_filter :: string
  reg_event :: "event option"
  reg_handlers :: "Handler list"

definition NewRegistration :: "string \<Rightarrow> event option \<Rightarrow> Handler \<Rightarrow> Registration" where
  "NewRegistration filter_str ev handler =
     \<lparr>reg_filter = filter_str, reg_event = ev, reg_handlers = [handler]\<rparr>"

definition uniqueName :: "Registration \<Rightarrow> string" where
  "uniqueName r =
     (case reg_event r of
        None \<Rightarrow> reg_filter r
      | Some ev \<Rightarrow> reg_filter r @ ''-'' @ gotype ev)"

text \<open>
  \<^verbatim>\<open>RegistrationHandlers\<close> is a Go map from the unique name to the registration. Go leaves
  the order in which \<^verbatim>\<open>range\<close> visits a map unspecified; the table is an association list
  whose order stands for that order, a new key going to the end. Whatever is proved for
  every table is proved for every order.
\<close>

record Bus =
  handlers :: "(string \<times> Registration) list"
  sent :: int

definition newBus :: Bus where
  "newBus = \<lparr>handlers = [], sent = 0\<rparr>"

definition RegisterHandler :: "Bus \<Rightarrow> Registration \<Rightarrow> Bus" where
  "RegisterHandler b registration =
     (case map_of (handlers b) (uniqueName registration) of
        Some reg \<Rightarrow>
          b\<lparr>handlers := AList.update (uniqueName registration)
               (reg\<lparr>reg_handlers := reg_handlers reg @ reg_handlers registration\<rparr>) (handlers b)\<rparr>
      | None \<Rightarrow> b\<lparr>handlers := handlers b @ [(uniqueName registration, registration)]\<rparr>)"

definition Register :: "Bus \<Rightarrow> string \<Rightarrow> event option \<Rightarrow> Handler \<Rightarrow> Bus" where
  "Register b filter_str emptyEvent handler =
     RegisterHandler b (NewRegistration filter_str emptyEvent handler)"

definition Registrations :: "Bus \<Rightarrow> Registration list" where
  "Registrations b = map snd (handlers b)"

definition ClearRegistrations :: "Bus \<Rightarrow> Bus" where
  "ClearRegistrations b = b\<lparr>handlers := []\<rparr>"

definition Reset :: Bus where
  "Reset = newBus"

definition AllHandlers :: "Bus \<Rightarrow> Handler list" where
  "AllHandlers b = concat (map (\<lambda>kr. reg_handlers (snd kr)) (handlers b))"

definition Sent :: "Bus \<Rightarrow> int" where
  "Sent b = sent b"

section \<open>Built-in events\<close>

definition NewLogEventDetailed ::
  "string \<Rightarrow> string \<Rightarrow> (string \<Rightarrow> any option) option \<Rightarrow> event" where
  "NewLogEventDetailed name msg data =
     Event ''*golang_utils.LogEvent'' (DefaultEvent msg name data None [])"

definition NewEmptyLogEvent :: event where
  "NewEmptyLogEvent = NewLogEventDetailed [] [] None"

definition NewEmptyDeadLetterEvent :: event where
  "NewEmptyDeadLetterEvent =
     Event ''*golang_utils.DeadLetterEvent'' (DefaultEvent [] [] None None [])"

text \<open>\<^verbatim>\<open>NewDeadLetterEvent(event, err, handlers)\<close>, for the arguments \<^verbatim>\<open>Send\<close> passes: an
  event and an error that are not \<^verbatim>\<open>nil\<close> (the error is given by its message), and a slice
  of handlers that may be \<^verbatim>\<open>nil\<close>.\<close>

definition NewDeadLetterEvent :: "event \<Rightarrow> string \<Rightarrow> Handler list option \<Rightarrow> event" where
  "NewDeadLetterEvent ev err hs =
     Event ''*golang_utils.DeadLetterEvent''
       (DefaultEvent err ''dead-letter''
          (Some [''event'' \<mapsto> AnyEvent ev, ''handlers'' \<mapsto> AnyHandlers hs]) None [])"

section \<open>Delivery\<close>

text \<open>
  A handler call returns \<^verbatim>\<open>nil\<close>, returns an error, or panics, and changes the variables
  its closure captures: the type \<open>'w\<close> holds those variables, and the environment gives each
  handler its behaviour. A handler that calls back into the bus is outside this model, so
  the registration table is the same throughout a \<^verbatim>\<open>Send\<close>.
\<close>

datatype ret = RetNil | RetErr string | RetPanic

type_synonym 'w henv = "Handler \<Rightarrow> event \<Rightarrow> 'w \<Rightarrow> ret \<times> 'w"

text \<open>
  The run of a \<^verbatim>\<open>Send\<close> is observed through a trace, which no function of the model reads:
  \<open>Call ev\<close> is recorded when \<^verbatim>\<open>Send\<close> is entered with the event \<open>ev\<close> (not \<^verbatim>\<open>nil\<close>), and
  \<open>Invoke h ev r\<close> when the handler \<open>h\<close> is called with \<open>ev\<close> and ends with \<open>r\<close>.
\<close>

datatype action = Call event | Invoke Handler event ret

text \<open>
  How a call ends: it returns, the goroutine stack is exhausted (Go stops the program
  with a fatal stack overflow), or a goroutine panics (which also stops the program).
\<close>

datatype status = Returned | OutOfStack | Panic

record 'w state =
  bus :: Bus
  world :: 'w
  trace :: "action list"

text \<open>
  The fan-out of one registration: the loop that starts one goroutine per handler, and the
  goroutines. They are run one after another in the order the loop starts them, each to
  its end, which is one of the schedules Go allows; the goroutines update \<^verbatim>\<open>b.sent\<close>,
  \<^verbatim>\<open>sentCnt\<close> and \<^verbatim>\<open>missedHandlers\<close> without synchronisation, and no other interleaving
  is modelled. \<open>i\<close> and \<open>handler\<close> are the loop variables of the iteration that started
  the goroutine (each iteration has its own, as from Go 1.22 on). \<open>egErr\<close> is the error
  the \<^verbatim>\<open>errgroup.Group\<close> keeps, the first one returned. The slice expression
  \<^verbatim>\<open>missedHandlers[i:]\<close> panics when \<open>i\<close> exceeds the length of the slice. The counters
  are unbounded integers: the wrap-around of a Go \<^verbatim>\<open>int\<close>, after \<open>2 ^ 63\<close> increments (or
  \<open>2 ^ 31\<close> on a 32-bit platform), is not modelled.
\<close>

fun fanOut :: "'w henv \<Rightarrow> event \<Rightarrow> nat \<Rightarrow> Handler list \<Rightarrow> 'w state \<Rightarrow> int \<Rightarrow> Handler list \<Rightarrow>
    string option \<Rightarrow> status \<times> 'w state \<times> int \<times> Handler list \<times> string option" where
  "fanOut env ev i [] st sentCnt missedHandlers egErr =
     (Returned, st, sentCnt, missedHandlers, egErr)"
| "fanOut env ev i (handler # rest) st sentCnt missedHandlers egErr =
     (case env handler ev (world st) of
        (RetNil, w) \<Rightarrow>
          fanOut env ev (Suc i) rest
            (st\<lparr>bus := (bus st)\<lparr>sent := sent (bus st) + 1\<rparr>, world := w,
                trace := trace st @ [Invoke handler ev RetNil]\<rparr>)
            (sentCnt + 1) missedHandlers egErr
      | (RetErr err, w) \<Rightarrow>
          if i \<le> length missedHandlers then
            fanOut env ev (Suc i) rest
              (st\<lparr>world := w, trace := trace st @ [Invoke handler ev (RetErr err)]\<rparr>)
              sentCnt (drop i missedHandlers)
              (case egErr of None \<Rightarrow> Some err | Some first_err \<Rightarrow> Some first_err)
          else
            (Panic, st\<lparr>world := w, trace := trace st @ [Invoke handler ev (RetErr err)]\<rparr>,
             sentCnt, missedHandlers, egErr)
      | (RetPanic, w) \<Rightarrow>
          (Panic, st\<lparr>world := w, trace := trace st @ [Invoke handler ev RetPanic]\<rparr>,
           sentCnt, missedHandlers, egErr))"

text \<open>The type test of \<^verbatim>\<open>Send\<close>: the prototype is \<^verbatim>\<open>nil\<close> or has the dynamic type of the
  event.\<close>

definition typeApplies :: "Registration \<Rightarrow> event \<Rightarrow> bool" where
  "typeApplies registration ev =
     (case reg_event registration of None \<Rightarrow> True | Some proto \<Rightarrow> gotype proto = gotype ev)"

text \<open>
  The loop of \<^verbatim>\<open>Send\<close> over the registrations, with the count of successes so far;
  \<open>send\<close> is the recursive call \<^verbatim>\<open>b.Send\<close>, made when \<^verbatim>\<open>eg.Wait()\<close> returns an error.
\<close>

fun scan :: "(event \<Rightarrow> 'w state \<Rightarrow> status \<times> 'w state) \<Rightarrow> 'w henv \<Rightarrow> event \<Rightarrow>
    (string \<times> Registration) list \<Rightarrow> 'w state \<Rightarrow> int \<Rightarrow> status \<times> 'w state \<times> int" where
  "scan send env ev [] st sentCnt = (Returned, st, sentCnt)"
| "scan send env ev ((key, registration) # regs) st sentCnt =
     (if typeApplies registration ev \<and> Matches (base ev) (reg_filter registration) then
        (case fanOut env ev 0 (reg_handlers registration) st sentCnt
                (reg_handlers registration) None of
           (Returned, st1, sentCnt1, missedHandlers, None) \<Rightarrow> scan send env ev regs st1 sentCnt1
         | (Returned, st1, sentCnt1, missedHandlers, Some err) \<Rightarrow>
             (case send (NewDeadLetterEvent ev err (Some missedHandlers)) st1 of
                (Returned, st2) \<Rightarrow> scan send env ev regs st2 sentCnt1
              | (stopped, st2) \<Rightarrow> (stopped, st2, sentCnt1))
         | (stopped, st1, sentCnt1, missedHandlers, egErr) \<Rightarrow> (stopped, st1, sentCnt1))
      else scan send env ev regs st sentCnt)"

text \<open>The event of the delivery shortfall: the message is
  \<^verbatim>\<open>fmt.Errorf("No handler(s) for event %s found", event.Name())\<close>, the handlers
  \<^verbatim>\<open>nil\<close>.\<close>

definition shortfallEvent :: "event \<Rightarrow> event" where
  "shortfallEvent ev =
     NewDeadLetterEvent ev (''No handler(s) for event '' @ Name (base ev) @ '' found'') None"

text \<open>
  \<^verbatim>\<open>Send\<close>. The first argument bounds the depth of the recursion, as the goroutine's stack
  does: a call that would need more ends the run in \<open>OutOfStack\<close>. \<^verbatim>\<open>Send\<close> returns when
  some bound is enough, and never returns when the run ends in \<open>OutOfStack\<close> for every bound.
\<close>

primrec Send :: "nat \<Rightarrow> 'w henv \<Rightarrow> event option \<Rightarrow> 'w state \<Rightarrow> status \<times> 'w state" where
  "Send 0 env event st =
     (case event of
        None \<Rightarrow> (Returned, st)
      | Some ev \<Rightarrow> (OutOfStack, st\<lparr>trace := trace st @ [Call ev]\<rparr>))"
| "Send (Suc depth) env event st =
     (case event of
        None \<Rightarrow> (Returned, st)
      | Some ev \<Rightarrow>
          (case scan (\<lambda>dl. Send depth env (Some dl)) env ev (handlers (bus st))
                  (st\<lparr>trace := trace st @ [Call ev]\<rparr>) 0 of
             (Returned, st1, sentCnt) \<Rightarrow>
               if sentCnt < 2 then Send depth env (Some (shortfallEvent ev)) st1
               else (Returned, st1)
           | (stopped, st1, sentCnt) \<Rightarrow> (stopped, st1)))"

section \<open>Observing a run\<close>



definition successes :: "event \<Rightarrow> action list \<Rightarrow> nat" where
  "successes ev tr =
     length (filter (\<lambda>a. case a of Call e \<Rightarrow> False | Invoke h e r \<Rightarrow> e = ev \<and> r = RetNil) tr)"

text \<open>
  How many dead-letter events are wrapped around the innermost event: the length of the
  chain of \<^verbatim>\<open>"event"\<close> entries in the data maps. An action is \<open>at_or_above d\<close> when it is a
  call of \<^verbatim>\<open>Send\<close>, or a handler call with \<open>d\<close> itself or with an event nested deeper than
  \<open>d\<close>.
\<close>

primrec nesting_any :: "any \<Rightarrow> nat"
  and nesting_base :: "DefaultEvent \<Rightarrow> nat"
  and nesting :: "event \<Rightarrow> nat" where
  "nesting_any AnyNil = 0"
| "nesting_any (AnyString s) = 0"
| "nesting_any (AnyEvent e) = Suc (nesting e)"
| "nesting_any (AnyHandlers hs) = 0"
| "nesting_base (DefaultEvent msg name data err dmn) =
     (case map_option (\<lambda>m. map_option nesting_any \<circ> m) data of
        None \<Rightarrow> 0
      | Some m \<Rightarrow> (case m ''event'' of None \<Rightarrow> 0 | Some n \<Rightarrow> n))"
| "nesting (Event t b) = nesting_base b"


section \<open>The scenarios of the tests\<close>

definition newTestEventDetailed ::
  "string \<Rightarrow> string \<Rightarrow> (string \<Rightarrow> any option) option \<Rightarrow> event" where
  "newTestEventDetailed name msg data =
     Event ''*golang_utils.TestEvent'' (DefaultEvent msg name data None [])"

definition newEmptyTestEvent :: event where
  "newEmptyTestEvent = newTestEventDetailed [] [] None"

text \<open>The variables the handlers of \<^verbatim>\<open>TestFailedSendCapturesMissedEventHandlers\<close>
  capture.\<close>

record test_vars =
  failed :: int
  missedHandlers_var :: "Handler list option"
  dlEvents :: "event list"

definition test_vars0 :: test_vars where
  "test_vars0 = \<lparr>failed = 0, missedHandlers_var = None, dlEvents = []\<rparr>"

text \<open>The body shared by the two handlers registered under \<^verbatim>\<open>"suzy"\<close>; they differ in the
  message they expect.\<close>

definition expecting :: "string \<Rightarrow> event \<Rightarrow> ret" where
  "expecting want ev =
     (if ''suzy'' \<noteq> Name (base ev) then RetErr (''expected suzy event, got '' @ Name (base ev))
      else if want \<noteq> Message (base ev) then
        RetErr (''expected '' @ want @ '', got '' @ Message (base ev))
      else RetNil)"

text \<open>Handlers 0 and 1 are the two handlers registered under \<^verbatim>\<open>"suzy"\<close>, handler 2 the
  dead-letter handler; its type assertion \<^verbatim>\<open>event.Get("handlers").([]Handler)\<close> panics on
  a value of another type.\<close>

definition test_env :: "test_vars henv" where
  "test_env h ev w =
     (if h = 0 then (expecting ''Reg 1'' ev, w)
      else if h = 1 then (expecting ''Reg 2'' ev, w)
      else
        (let w1 = w\<lparr>failed := failed w + 1, dlEvents := dlEvents w @ [ev]\<rparr> in
         case Get (base ev) ''handlers'' of
           AnyHandlers hs \<Rightarrow> (RetNil, w1\<lparr>missedHandlers_var := hs\<rparr>)
         | AnyNil \<Rightarrow> (RetPanic, w1)
         | AnyString s \<Rightarrow> (RetPanic, w1)
         | AnyEvent e \<Rightarrow> (RetPanic, w1)))"

definition test_bus :: Bus where
  "test_bus =
     Register
       (Register (Register Reset ''suzy'' (Some newEmptyTestEvent) 0)
          ''suzy'' (Some newEmptyTestEvent) 1)
       ''*'' (Some NewEmptyDeadLetterEvent) 2"

definition test_state :: "test_vars state" where
  "test_state = \<lparr>bus = test_bus, world = test_vars0, trace = []\<rparr>"

section \<open>Filters\<close>

lemma HasPrefix_prefix: "HasPrefix s pre = prefix pre s"
  by (auto simp: HasPrefix_def prefix_def min_def) (metis append_eq_conv_conj)

lemma TrimLeft_bang: "TrimLeft s ''!'' = dropWhile (\<lambda>c. c = CHR ''!'') s"
  by (simp add: TrimLeft_def)

lemma dropWhile_not_hd: "g = [] \<or> hd g \<noteq> c \<Longrightarrow> dropWhile (\<lambda>x. x = c) g = g"
  by (cases g) auto

lemma dropWhile_replicate_bangs:
  "g = [] \<or> hd g \<noteq> c \<Longrightarrow> dropWhile (\<lambda>x. x = c) (replicate k c @ g) = g"
  by (induction k) (simp_all add: dropWhile_not_hd)

text \<open>
  Claim C4, as the specification states it: a filter that begins with \<^verbatim>\<open>!\<close> excludes the
  names that start with the filter without its \<^verbatim>\<open>!\<close>. With one \<^verbatim>\<open>!\<close> stripped the filter
  \<^verbatim>\<open>!!foo\<close> would exclude the prefix \<^verbatim>\<open>!foo\<close> and so accept the name \<^verbatim>\<open>foobar\<close>; the code
  rejects it.
\<close>

theorem Matches_spec_counterexample:
  "Matches_spec (DefaultEvent [] ''foobar'' None None []) ''!!foo'' \<and>
   \<not> Matches (DefaultEvent [] ''foobar'' None None []) ''!!foo''"
  by (simp add: Matches_spec_def Matches_def HasPrefix_def TrimLeft_def Name_def)

text \<open>The code and the specification's wording agree on every filter that does not begin
  with two \<^verbatim>\<open>!\<close>.\<close>

lemma Matches_agrees_spec:
  "\<not> prefix ''!!'' f \<Longrightarrow> Matches e f = Matches_spec e f"
proof (cases f)
  case Nil
  then show ?thesis
    by (simp add: Matches_def Matches_spec_def HasPrefix_prefix TrimLeft_bang)
next
  case (Cons a list)
  assume "\<not> prefix ''!!'' f"
  with Cons show ?thesis
    by (cases list)
      (auto simp add: Matches_def Matches_spec_def HasPrefix_prefix TrimLeft_bang)
qed

text \<open>
  Claim C4, amended: for every event \<open>e\<close> and filter \<open>f\<close>, \<^verbatim>\<open>Matches(f)\<close> is true when \<open>f\<close> is
  \<^verbatim>\<open>*\<close>; when \<open>f\<close> begins with \<^verbatim>\<open>!\<close> it is false if the name of \<open>e\<close> starts with \<open>f\<close> without
  all of its leading \<^verbatim>\<open>!\<close> characters, and true otherwise; for any other \<open>f\<close> it is true
  exactly when the name of \<open>e\<close> starts with \<open>f\<close>.
\<close>

theorem Matches_strips_every_bang:
  "Matches e f =
     (if f = ''*'' then True
      else if prefix ''!'' f then \<not> prefix (dropWhile (\<lambda>c. c = CHR ''!'') f) (Name e)
      else prefix f (Name e))"
  by (simp add: Matches_def HasPrefix_prefix TrimLeft_bang)

text \<open>The examples of claim C4: \<^verbatim>\<open>!foo\<close> rejects \<^verbatim>\<open>foobar\<close> and accepts \<^verbatim>\<open>barfoo\<close>, \<^verbatim>\<open>foo\<close>
  accepts \<^verbatim>\<open>foobar\<close> and rejects \<^verbatim>\<open>barfoo\<close>, and \<^verbatim>\<open>*\<close> accepts both.\<close>

theorem Matches_strips_every_bang_witness:
  "\<not> Matches (DefaultEvent [] ''foobar'' None None []) ''!foo'' \<and>
   Matches (DefaultEvent [] ''barfoo'' None None []) ''!foo'' \<and>
   Matches (DefaultEvent [] ''foobar'' None None []) ''foo'' \<and>
   \<not> Matches (DefaultEvent [] ''barfoo'' None None []) ''foo'' \<and>
   Matches (DefaultEvent [] ''foobar'' None None []) ''*'' \<and>
   Matches (DefaultEvent [] ''barfoo'' None None []) ''*''"
  using Matches_strips_every_bang [of "DefaultEvent [] ''foobar'' None None []" "''!foo''"]
    Matches_strips_every_bang [of "DefaultEvent [] ''barfoo'' None None []" "''!foo''"]
    Matches_strips_every_bang [of "DefaultEvent [] ''foobar'' None None []" "''foo''"]
    Matches_strips_every_bang [of "DefaultEvent [] ''barfoo'' None None []" "''foo''"]
    Matches_strips_every_bang [of "DefaultEvent [] ''foobar'' None None []" "''*''"]
    Matches_strips_every_bang [of "DefaultEvent [] ''barfoo'' None None []" "''*''"]
  by (simp add: Name_def)

text \<open>
  Claim C10: a filter made of one or more \<^verbatim>\<open>!\<close> followed by \<open>g\<close>, where \<open>g\<close> does not begin
  with \<^verbatim>\<open>!\<close>, matches exactly the events whose name does not start with \<open>g\<close>: every leading
  \<^verbatim>\<open>!\<close> is stripped before the negated prefix test, not only the first.
\<close>

theorem Matches_bangs:
  assumes "g = [] \<or> hd g \<noteq> CHR ''!''"
  shows "Matches e (replicate (Suc k) CHR ''!'' @ g) = (\<not> prefix g (Name e))"
proof -
  have trim: "TrimLeft (replicate (Suc k) CHR ''!'' @ g) ''!'' = g"
    unfolding TrimLeft_bang using assms by (rule dropWhile_replicate_bangs)
  have bang: "HasPrefix (replicate (Suc k) CHR ''!'' @ g) ''!''"
    by (simp add: HasPrefix_def)
  have star: "replicate (Suc k) CHR ''!'' @ g \<noteq> ''*''"
    by simp
  show ?thesis
    unfolding Matches_def using trim bang star by (simp add: HasPrefix_prefix)
qed

text \<open>For the filter \<^verbatim>\<open>!!foo\<close> the name \<^verbatim>\<open>foobar\<close> does not match and the name \<^verbatim>\<open>!foo-x\<close>
  matches: the excluded prefix is \<^verbatim>\<open>foo\<close>.\<close>

theorem Matches_bangs_witness:
  "\<not> Matches (DefaultEvent [] ''foobar'' None None []) ''!!foo'' \<and>
   Matches (DefaultEvent [] ''!foo-x'' None None []) ''!!foo''"
  using Matches_bangs [of "''foo''" "DefaultEvent [] ''foobar'' None None []" 1]
    Matches_bangs [of "''foo''" "DefaultEvent [] ''!foo-x'' None None []" 1]
  by (simp add: Name_def)

section \<open>Reading the data of an event\<close>

text \<open>
  Claim C7: \<^verbatim>\<open>Get(key)\<close> on an event built on \<^verbatim>\<open>DefaultEvent\<close> always yields a value: the
  stored value when the data map holds the key, and the placeholder string \<^verbatim>\<open>???\<close> when
  the map does not hold the key or the event has no data map (a \<^verbatim>\<open>nil\<close> map).
\<close>

theorem Get_never_fails:
  "(DataMap e = Some m \<and> m key = Some v \<longrightarrow> Get e key = v) \<and>
   (DataMap e = Some m \<and> m key = None \<longrightarrow> Get e key = AnyString ''???'') \<and>
   (DataMap e = None \<longrightarrow> Get e key = AnyString ''???'')"
  by (simp add: Get_def index_map_def)

theorem Get_never_fails_witness:
  "Get (DefaultEvent [] [] (Some [''k'' \<mapsto> AnyString ''v'']) None []) ''k'' = AnyString ''v'' \<and>
   Get (DefaultEvent [] [] (Some [''k'' \<mapsto> AnyString ''v'']) None []) ''j'' = AnyString ''???'' \<and>
   Get (DefaultEvent [] [] None None []) ''k'' = AnyString ''???''"
  using Get_never_fails [of "DefaultEvent [] [] (Some [''k'' \<mapsto> AnyString ''v'']) None []"
      "[''k'' \<mapsto> AnyString ''v'']" "''k''" "AnyString ''v''"]
    Get_never_fails [of "DefaultEvent [] [] (Some [''k'' \<mapsto> AnyString ''v'']) None []"
      "[''k'' \<mapsto> AnyString ''v'']" "''j''"]
    Get_never_fails [of "DefaultEvent [] [] None None []" _ "''k''"]
  by simp

section \<open>The registration table\<close>

lemma update_at_end:
  "map_of xs k = None \<Longrightarrow> AList.update k v (xs @ [(k, w)]) = xs @ [(k, v)]"
  by (induction xs) (auto split: if_splits)

lemma map_of_at_end:
  "map_of xs k = None \<Longrightarrow> map_of (xs @ [(k, w)]) k = Some w"
  by (simp add: map_add_def)

lemma Register_new_key:
  "map_of (handlers b) (uniqueName (NewRegistration f e h)) = None \<Longrightarrow>
   handlers (Register b f e h) =
     handlers b @ [(uniqueName (NewRegistration f e h), NewRegistration f e h)]"
  by (simp add: Register_def RegisterHandler_def)

lemma Register_known_key:
  "map_of (handlers b) (uniqueName (NewRegistration f e h)) = Some reg \<Longrightarrow>
   handlers (Register b f e h) =
     AList.update (uniqueName (NewRegistration f e h))
       (reg\<lparr>reg_handlers := reg_handlers reg @ [h]\<rparr>) (handlers b)"
  by (simp add: Register_def RegisterHandler_def NewRegistration_def)

lemma Register_twice_same_key:
  assumes fresh: "map_of (handlers b) (uniqueName (NewRegistration f e h1)) = None"
    and same: "uniqueName (NewRegistration f' e' h2) = uniqueName (NewRegistration f e h1)"
  shows "handlers (Register (Register b f e h1) f' e' h2) =
     handlers b @ [(uniqueName (NewRegistration f e h1),
       \<lparr>reg_filter = f, reg_event = e, reg_handlers = [h1, h2]\<rparr>)]"
proof -
  let ?k = "uniqueName (NewRegistration f e h1)"
  have first: "handlers (Register b f e h1) = handlers b @ [(?k, NewRegistration f e h1)]"
    using fresh by (rule Register_new_key)
  have "map_of (handlers (Register b f e h1)) (uniqueName (NewRegistration f' e' h2)) =
      Some (NewRegistration f e h1)"
    unfolding first same using fresh by (rule map_of_at_end)
  then have "handlers (Register (Register b f e h1) f' e' h2) =
      AList.update (uniqueName (NewRegistration f' e' h2))
        ((NewRegistration f e h1)\<lparr>reg_handlers := reg_handlers (NewRegistration f e h1) @ [h2]\<rparr>)
        (handlers (Register b f e h1))"
    by (rule Register_known_key)
  also have "\<dots> = handlers b @ [(?k, (NewRegistration f e h1)\<lparr>reg_handlers :=
      reg_handlers (NewRegistration f e h1) @ [h2]\<rparr>)]"
    unfolding first same using fresh by (rule update_at_end)
  finally show ?thesis by (simp add: NewRegistration_def)
qed


lemma uniqueName_typed:
  "uniqueName (NewRegistration f (Some e) h) = f @ ''-'' @ gotype e"
  by (simp add: uniqueName_def NewRegistration_def)

lemma uniqueName_untyped: "uniqueName (NewRegistration f None h) = f"
  by (simp add: uniqueName_def NewRegistration_def)



text \<open>
  Claim C9: the unique name of a registration is its filter when the prototype is \<^verbatim>\<open>nil\<close>,
  and its filter, \<^verbatim>\<open>-\<close> and the name of the prototype's type otherwise. The encoding is
  not injective: a registration with a \<^verbatim>\<open>nil\<close> prototype whose filter is \<open>f\<close>, \<^verbatim>\<open>-\<close> and
  the type name of \<open>p\<close> has the unique name of the registration of \<open>f\<close> with the prototype
  \<open>p\<close>, and on a new bus the two calls to \<^verbatim>\<open>Register\<close>, in either order, leave one entry
  that holds both handlers under the filter and the prototype of the first call.
\<close>

theorem uniqueName_not_injective:
  "uniqueName r =
     (case reg_event r of None \<Rightarrow> reg_filter r | Some p \<Rightarrow> reg_filter r @ ''-'' @ gotype p) \<and>
   uniqueName (NewRegistration (f @ ''-'' @ gotype p) None h1) =
     uniqueName (NewRegistration f (Some p) h2) \<and>
   Registrations (Register (Register newBus (f @ ''-'' @ gotype p) None h1) f (Some p) h2) =
     [\<lparr>reg_filter = f @ ''-'' @ gotype p, reg_event = None, reg_handlers = [h1, h2]\<rparr>] \<and>
   Registrations (Register (Register newBus f (Some p) h2) (f @ ''-'' @ gotype p) None h1) =
     [\<lparr>reg_filter = f, reg_event = Some p, reg_handlers = [h2, h1]\<rparr>]"
proof -
  have same: "uniqueName (NewRegistration (f @ ''-'' @ gotype p) None h1) =
      uniqueName (NewRegistration f (Some p) h2)"
    by (simp add: uniqueName_typed uniqueName_untyped)
  have a: "handlers (Register (Register newBus (f @ ''-'' @ gotype p) None h1) f (Some p) h2) =
      handlers newBus @ [(uniqueName (NewRegistration (f @ ''-'' @ gotype p) None h1),
        \<lparr>reg_filter = f @ ''-'' @ gotype p, reg_event = None, reg_handlers = [h1, h2]\<rparr>)]"
    by (rule Register_twice_same_key)
      (simp_all add: newBus_def uniqueName_typed uniqueName_untyped)
  have b: "handlers (Register (Register newBus f (Some p) h2) (f @ ''-'' @ gotype p) None h1) =
      handlers newBus @ [(uniqueName (NewRegistration f (Some p) h2),
        \<lparr>reg_filter = f, reg_event = Some p, reg_handlers = [h2, h1]\<rparr>)]"
    by (rule Register_twice_same_key)
      (simp_all add: newBus_def uniqueName_typed uniqueName_untyped)
  show ?thesis
    using same a b by (simp add: Registrations_def newBus_def uniqueName_def)
qed

theorem uniqueName_not_injective_witness:
  "Registrations (Register (Register newBus ''suzy-*golang_utils.TestEvent'' None 7)
      ''suzy'' (Some newEmptyTestEvent) 8) =
     [\<lparr>reg_filter = ''suzy-*golang_utils.TestEvent'', reg_event = None, reg_handlers = [7, 8]\<rparr>]"
  using uniqueName_not_injective [of _ "''suzy''" newEmptyTestEvent 7 8]
  by (simp add: newEmptyTestEvent_def newTestEventDetailed_def)

text \<open>
  Claim C8: \<^verbatim>\<open>ClearRegistrations()\<close> leaves no registration and no handler on the bus, and
  \<^verbatim>\<open>Sent()\<close> returns after it what it returned before.
\<close>

theorem ClearRegistrations_frame:
  "Registrations (ClearRegistrations b) = [] \<and> AllHandlers (ClearRegistrations b) = [] \<and>
   Sent (ClearRegistrations b) = Sent b"
  by (simp add: Registrations_def AllHandlers_def ClearRegistrations_def Sent_def)

theorem ClearRegistrations_frame_witness:
  "Registrations (ClearRegistrations (test_bus\<lparr>sent := 7\<rparr>)) = [] \<and>
   AllHandlers (ClearRegistrations (test_bus\<lparr>sent := 7\<rparr>)) = [] \<and>
   Sent (ClearRegistrations (test_bus\<lparr>sent := 7\<rparr>)) = 7"
  using ClearRegistrations_frame [of "test_bus\<lparr>sent := 7\<rparr>"]
  by (simp add: Sent_def)

section \<open>Dead-letter events\<close>

lemma shortfallEvent_simps:
  "gotype (shortfallEvent d) = ''*golang_utils.DeadLetterEvent''"
  "Name (base (shortfallEvent d)) = ''dead-letter''"
  "Message (base (shortfallEvent d)) = ''No handler(s) for event '' @ Name (base d) @ '' found''"
  "Get (base (shortfallEvent d)) ''handlers'' = AnyHandlers None"
  "Get (base (shortfallEvent d)) ''event'' = AnyEvent d"
  by (simp_all add: shortfallEvent_def NewDeadLetterEvent_def Name_def Message_def Get_def
      index_map_def)

lemma NewDeadLetterEvent_simps:
  "gotype (NewDeadLetterEvent d err hs) = ''*golang_utils.DeadLetterEvent''"
  "Name (base (NewDeadLetterEvent d err hs)) = ''dead-letter''"
  "Message (base (NewDeadLetterEvent d err hs)) = err"
  "Get (base (NewDeadLetterEvent d err hs)) ''handlers'' = AnyHandlers hs"
  "Get (base (NewDeadLetterEvent d err hs)) ''event'' = AnyEvent d"
  by (simp_all add: NewDeadLetterEvent_def Name_def Message_def Get_def index_map_def)

lemma not_dead_letter_suzy: "Name e = ''dead-letter'' \<Longrightarrow> \<not> Matches e ''suzy''"
  by (simp add: Matches_def HasPrefix_def)

lemma Matches_star: "Matches e ''*''"
  by (simp add: Matches_def)

lemma suzy_matches: "Name e = ''suzy'' \<Longrightarrow> Matches e ''suzy''"
  by (simp add: Matches_def HasPrefix_def)

lemma nesting_NewDeadLetterEvent: "nesting (NewDeadLetterEvent d err hs) = Suc (nesting d)"
  by (simp add: NewDeadLetterEvent_def)

section \<open>What a run adds to the trace\<close>












section \<open>The delivery shortfall\<close>




lemma successes_Nil [simp]: "successes ev [] = 0"
  by (simp add: successes_def)



lemma nesting_shortfallEvent: "nesting (shortfallEvent d) = Suc (nesting d)"
  by (simp add: shortfallEvent_def nesting_NewDeadLetterEvent)










section \<open>Sends that never return\<close>

text \<open>
  On a bus whose only registration has the filter \<^verbatim>\<open>suzy\<close>, a dead-letter event reaches no
  handler, so its shortfall event is sent, which is again a dead-letter event: whatever
  the bound on the stack, the run ends in \<open>OutOfStack\<close>, and it records nothing but the
  calls of \<^verbatim>\<open>Send\<close>.
\<close>

lemma lone_suzy_dead_letters:
  assumes tbl: "handlers (bus st) = [(key, reg)]" and flt: "reg_filter reg = ''suzy''"
    and nm: "Name (base d) = ''dead-letter''"
  shows "Send depth env (Some d) st =
    (OutOfStack, st\<lparr>trace := trace st @ map (\<lambda>i. Call ((shortfallEvent ^^ i) d)) [0..<Suc depth]\<rparr>)"
  using tbl nm
proof (induction depth arbitrary: d st)
  case 0
  then show ?case by simp
next
  case (Suc depth)
  have skip: "\<not> Matches (base d) (reg_filter reg)"
    using Suc.prems(2) flt by (simp add: not_dead_letter_suzy)
  have step: "Send (Suc depth) env (Some d) st =
      Send depth env (Some (shortfallEvent d)) (st\<lparr>trace := trace st @ [Call d]\<rparr>)"
    using Suc.prems(1) skip by simp
  have "Send depth env (Some (shortfallEvent d)) (st\<lparr>trace := trace st @ [Call d]\<rparr>) =
      (OutOfStack, (st\<lparr>trace := trace st @ [Call d]\<rparr>)\<lparr>trace :=
         trace (st\<lparr>trace := trace st @ [Call d]\<rparr>) @
           map (\<lambda>i. Call ((shortfallEvent ^^ i) (shortfallEvent d))) [0..<Suc depth]\<rparr>)"
    by (rule Suc.IH) (simp_all add: Suc.prems(1) shortfallEvent_simps)
  moreover have "map (\<lambda>i. Call ((shortfallEvent ^^ i) d)) [0..<Suc (Suc depth)] =
      Call d # map (\<lambda>i. Call ((shortfallEvent ^^ i) (shortfallEvent d))) [0..<Suc depth]"
    by (simp only: upt_conv_Cons [of 0 "Suc (Suc depth)"] map_Suc_upt [symmetric])
       (simp add: funpow_swap1 del: upt_Suc)
  ultimately show ?case
    unfolding step by simp
qed


text \<open>
  Claim C5, on the code: with a single registration for the filter \<^verbatim>\<open>suzy\<close>, a prototype
  \<open>p\<close> and a handler \<open>h\<close> that always succeeds, sending an event of the type of \<open>p\<close> named
  \<^verbatim>\<open>suzy\<close> calls \<open>h\<close> once and then sends the shortfall event, and the counter is 1 from
  then on; but the shortfall event reaches no handler and has a shortfall of its own, so
  for every bound on the stack the run ends in \<open>OutOfStack\<close>: \<^verbatim>\<open>Send\<close> does not return, and
  there is no moment afterwards at which \<^verbatim>\<open>Sent()\<close> could be read.
\<close>

theorem Send_lone_handler_never_returns:
  assumes ok: "\<forall>e w. fst (env h e w) = RetNil"
    and ty: "gotype ev = gotype p" and nm: "Name (base ev) = ''suzy''"
  shows "fst (Send depth env (Some ev)
            \<lparr>bus = Register newBus ''suzy'' (Some p) h, world = w, trace = []\<rparr>) = OutOfStack \<and>
         Sent (bus (snd (Send (Suc depth) env (Some ev)
            \<lparr>bus = Register newBus ''suzy'' (Some p) h, world = w, trace = []\<rparr>))) = 1 \<and>
         trace (snd (Send (Suc depth) env (Some ev)
            \<lparr>bus = Register newBus ''suzy'' (Some p) h, world = w, trace = []\<rparr>)) =
           [Call ev, Invoke h ev RetNil] @
             map (\<lambda>i. Call ((shortfallEvent ^^ i) (shortfallEvent ev))) [0..<Suc depth]"
proof -
  let ?reg = "\<lparr>reg_filter = ''suzy'', reg_event = Some p, reg_handlers = [h]\<rparr>"
  let ?key = "''suzy-'' @ gotype p"
  let ?b = "Register newBus ''suzy'' (Some p) h"
  let ?st = "\<lparr>bus = ?b, world = w, trace = []\<rparr>"
  let ?st1 = "\<lparr>bus = ?b\<lparr>sent := 1\<rparr>, world = snd (env h ev w),
               trace = [Call ev, Invoke h ev RetNil]\<rparr>"
  have tbl: "handlers ?b = [(?key, ?reg)]"
    by (simp add: Register_def RegisterHandler_def NewRegistration_def uniqueName_def newBus_def)
  have sent0: "sent ?b = 0"
    by (simp add: Register_def RegisterHandler_def NewRegistration_def uniqueName_def newBus_def)
  obtain w1 where call: "env h ev w = (RetNil, w1)"
    using ok by (metis prod.collapse)
  then have w1: "snd (env h ev w) = w1"
    by simp
  have step: "Send (Suc n) env (Some ev) ?st = Send n env (Some (shortfallEvent ev)) ?st1" for n
    unfolding w1 using tbl sent0 call ty nm by (simp add: typeApplies_def suzy_matches)
  have loop: "Send n env (Some (shortfallEvent ev)) ?st1 =
      (OutOfStack, ?st1\<lparr>trace := trace ?st1 @
          map (\<lambda>i. Call ((shortfallEvent ^^ i) (shortfallEvent ev))) [0..<Suc n]\<rparr>)" for n
    by (rule lone_suzy_dead_letters [where key = ?key and reg = ?reg])
      (simp_all add: tbl shortfallEvent_simps)
  have "fst (Send depth env (Some ev) ?st) = OutOfStack"
  proof (cases depth)
    case 0
    then show ?thesis by simp
  next
    case (Suc n)
    then show ?thesis by (simp only: step loop fst_conv)
  qed
  moreover have "Sent (bus (snd (Send (Suc depth) env (Some ev) ?st))) = 1"
    by (simp only: step loop) (simp add: Sent_def)
  moreover have "trace (snd (Send (Suc depth) env (Some ev) ?st)) =
      [Call ev, Invoke h ev RetNil] @
        map (\<lambda>i. Call ((shortfallEvent ^^ i) (shortfallEvent ev))) [0..<Suc depth]"
    by (simp only: step loop) simp
  ultimately show ?thesis by blast
qed

theorem Send_lone_handler_never_returns_witness:
  "fst (Send 3 (\<lambda>h e w. (RetNil, w)) (Some (newTestEventDetailed ''suzy'' ''Reg 1'' None))
      \<lparr>bus = Register newBus ''suzy'' (Some newEmptyTestEvent) 0, world = (), trace = []\<rparr>) =
     OutOfStack \<and>
   Sent (bus (snd (Send 3 (\<lambda>h e w. (RetNil, w))
      (Some (newTestEventDetailed ''suzy'' ''Reg 1'' None))
      \<lparr>bus = Register newBus ''suzy'' (Some newEmptyTestEvent) 0, world = (), trace = []\<rparr>))) = 1"
  using Send_lone_handler_never_returns [of "\<lambda>h e w. (RetNil, w)" 0
      "newTestEventDetailed ''suzy'' ''Reg 1'' None" newEmptyTestEvent _ "()"]
    Send_lone_handler_never_returns [of "\<lambda>h e w. (RetNil, w)" 0
      "newTestEventDetailed ''suzy'' ''Reg 1'' None" newEmptyTestEvent 3 "()"]
    Send_lone_handler_never_returns [of "\<lambda>h e w. (RetNil, w)" 0
      "newTestEventDetailed ''suzy'' ''Reg 1'' None" newEmptyTestEvent 2 "()"]
  by (simp add: newTestEventDetailed_def newEmptyTestEvent_def Name_def numeral_3_eq_3)

text \<open>
  The scenario of \<^verbatim>\<open>TestFailedSendCapturesMissedEventHandlers\<close>. The two registrations
  may be visited in either order. A dead-letter event is delivered to the dead-letter
  handler alone, so each send of one counts one success and sends a shortfall event,
  another dead-letter event.
\<close>

lemma test_table:
  "handlers test_bus =
    [(''suzy-*golang_utils.TestEvent'',
      \<lparr>reg_filter = ''suzy'', reg_event = Some newEmptyTestEvent, reg_handlers = [0, 1]\<rparr>),
     (''*-*golang_utils.DeadLetterEvent'',
      \<lparr>reg_filter = ''*'', reg_event = Some NewEmptyDeadLetterEvent, reg_handlers = [2]\<rparr>)]"
  by (simp add: test_bus_def Register_def RegisterHandler_def NewRegistration_def uniqueName_def
      Reset_def newBus_def newEmptyTestEvent_def newTestEventDetailed_def
      NewEmptyDeadLetterEvent_def)

lemma test_dead_letter_step:
  assumes tbl: "handlers (bus st) = handlers test_bus \<or> handlers (bus st) = rev (handlers test_bus)"
    and ty: "gotype d = ''*golang_utils.DeadLetterEvent''"
    and hs: "Get (base d) ''handlers'' = AnyHandlers hs"
  shows "Send (Suc depth) test_env (Some d) st =
    Send depth test_env (Some (shortfallEvent d))
      (st\<lparr>bus := (bus st)\<lparr>sent := sent (bus st) + 1\<rparr>,
          world := (world st)\<lparr>failed := failed (world st) + 1,
             dlEvents := dlEvents (world st) @ [d], missedHandlers_var := hs\<rparr>,
          trace := trace st @ [Call d, Invoke 2 d RetNil]\<rparr>)"
  using tbl
proof
  assume "handlers (bus st) = handlers test_bus"
  then show ?thesis
    using ty hs
    by (simp add: test_table typeApplies_def Matches_star newEmptyTestEvent_def
        newTestEventDetailed_def NewEmptyDeadLetterEvent_def test_env_def)
next
  assume "handlers (bus st) = rev (handlers test_bus)"
  then show ?thesis
    using ty hs
    by (simp add: test_table typeApplies_def Matches_star newEmptyTestEvent_def
        newTestEventDetailed_def NewEmptyDeadLetterEvent_def test_env_def)
qed

lemma test_dead_letter_loop:
  assumes "handlers (bus st) = handlers test_bus \<or> handlers (bus st) = rev (handlers test_bus)"
    and "gotype d = ''*golang_utils.DeadLetterEvent''"
    and "Get (base d) ''handlers'' = AnyHandlers hs"
  shows "fst (Send depth test_env (Some d) st) = OutOfStack \<and>
    sent (bus (snd (Send depth test_env (Some d) st))) = sent (bus st) + int depth \<and>
    failed (world (snd (Send depth test_env (Some d) st))) = failed (world st) + int depth \<and>
    dlEvents (world (snd (Send depth test_env (Some d) st))) =
      dlEvents (world st) @ map (\<lambda>i. (shortfallEvent ^^ i) d) [0..<depth]"
  using assms
proof (induction depth arbitrary: d st hs)
  case 0
  then show ?case by simp
next
  case (Suc depth)
  let ?st1 = "st\<lparr>bus := (bus st)\<lparr>sent := sent (bus st) + 1\<rparr>,
          world := (world st)\<lparr>failed := failed (world st) + 1,
             dlEvents := dlEvents (world st) @ [d], missedHandlers_var := hs\<rparr>,
          trace := trace st @ [Call d, Invoke 2 d RetNil]\<rparr>"
  have step: "Send (Suc depth) test_env (Some d) st =
      Send depth test_env (Some (shortfallEvent d)) ?st1"
    using Suc.prems by (rule test_dead_letter_step)
  have tbl1: "handlers (bus ?st1) = handlers test_bus \<or>
      handlers (bus ?st1) = rev (handlers test_bus)"
    using Suc.prems(1) by simp
  have ih: "fst (Send depth test_env (Some (shortfallEvent d)) ?st1) = OutOfStack \<and>
    sent (bus (snd (Send depth test_env (Some (shortfallEvent d)) ?st1))) =
      sent (bus ?st1) + int depth \<and>
    failed (world (snd (Send depth test_env (Some (shortfallEvent d)) ?st1))) =
      failed (world ?st1) + int depth \<and>
    dlEvents (world (snd (Send depth test_env (Some (shortfallEvent d)) ?st1))) =
      dlEvents (world ?st1) @ map (\<lambda>i. (shortfallEvent ^^ i) (shortfallEvent d)) [0..<depth]"
    using tbl1 by (rule Suc.IH [where hs = None]) (simp_all add: shortfallEvent_simps)
  have shift: "map (\<lambda>i. (shortfallEvent ^^ i) d) [0..<Suc depth] =
      d # map (\<lambda>i. (shortfallEvent ^^ i) (shortfallEvent d)) [0..<depth]"
    by (simp only: upt_conv_Cons [of 0 "Suc depth"] map_Suc_upt [symmetric])
       (simp add: funpow_swap1 del: upt_Suc)
  show ?case
    unfolding step shift using ih by simp
qed

text \<open>The first call: handler 0 succeeds, handler 1 fails, and the dead-letter event with
  the error of handler 1 and the one missed handler is sent; that send never returns.\<close>

lemma test_first_send:
  assumes tbl: "handlers (bus st) = handlers test_bus \<or> handlers (bus st) = rev (handlers test_bus)"
  shows "Send (Suc depth) test_env (Some (newTestEventDetailed ''suzy'' ''Reg 1'' None)) st =
    (OutOfStack,
     snd (Send depth test_env
       (Some (NewDeadLetterEvent (newTestEventDetailed ''suzy'' ''Reg 1'' None)
          ''expected Reg 2, got Reg 1'' (Some [1])))
       (st\<lparr>bus := (bus st)\<lparr>sent := sent (bus st) + 1\<rparr>,
           trace := trace st @
             [Call (newTestEventDetailed ''suzy'' ''Reg 1'' None),
              Invoke 0 (newTestEventDetailed ''suzy'' ''Reg 1'' None) RetNil,
              Invoke 1 (newTestEventDetailed ''suzy'' ''Reg 1'' None)
                (RetErr ''expected Reg 2, got Reg 1'')]\<rparr>)))"
proof -
  let ?ev = "newTestEventDetailed ''suzy'' ''Reg 1'' None"
  let ?dl = "NewDeadLetterEvent ?ev ''expected Reg 2, got Reg 1'' (Some [1])"
  let ?st1 = "st\<lparr>bus := (bus st)\<lparr>sent := sent (bus st) + 1\<rparr>,
           trace := trace st @
             [Call ?ev, Invoke 0 ?ev RetNil, Invoke 1 ?ev (RetErr ''expected Reg 2, got Reg 1'')]\<rparr>"
  have tbl1: "handlers (bus ?st1) = handlers test_bus \<or>
      handlers (bus ?st1) = rev (handlers test_bus)"
    using tbl by simp
  have "fst (Send depth test_env (Some ?dl) ?st1) = OutOfStack"
    using test_dead_letter_loop [OF tbl1, of ?dl "Some [1]" depth]
    by (simp add: NewDeadLetterEvent_simps)
  then obtain st2 where rec: "Send depth test_env (Some ?dl) ?st1 = (OutOfStack, st2)"
    by (metis prod.collapse)
  have ev: "gotype ?ev = ''*golang_utils.TestEvent''" "Name (base ?ev) = ''suzy''"
    "Message (base ?ev) = ''Reg 1''"
    by (simp_all add: newTestEventDetailed_def Name_def Message_def)
  have h0: "test_env 0 ?ev w = (RetNil, w)" for w
    by (simp add: test_env_def expecting_def ev)
  have h1: "test_env (Suc 0) ?ev w = (RetErr ''expected Reg 2, got Reg 1'', w)" for w
    by (simp add: test_env_def expecting_def ev)
  have ty: "typeApplies \<lparr>reg_filter = f, reg_event = Some newEmptyTestEvent, reg_handlers = hs\<rparr> ?ev"
    for f hs
    by (simp add: typeApplies_def newEmptyTestEvent_def newTestEventDetailed_def)
  have nty: "\<not> typeApplies
      \<lparr>reg_filter = f, reg_event = Some NewEmptyDeadLetterEvent, reg_handlers = hs\<rparr> ?ev" for f hs
    by (simp add: typeApplies_def NewEmptyDeadLetterEvent_def newTestEventDetailed_def)
  have mt: "Matches (base ?ev) ''suzy''"
    by (rule suzy_matches) (rule ev(2))
  from tbl show ?thesis
  proof
    assume t: "handlers (bus st) = handlers test_bus"
    show ?thesis
      unfolding Send.simps t test_table
      by (simp add: ty nty mt h0 h1 rec [unfolded One_nat_def])
  next
    assume t: "handlers (bus st) = rev (handlers test_bus)"
    show ?thesis
      unfolding Send.simps t test_table
      by (simp add: ty nty mt h0 h1 rec [unfolded One_nat_def])
  qed
qed

text \<open>
  Claim C2, on the code: in the scenario of the test, in whichever order the two
  registrations are visited, the run ends in \<open>OutOfStack\<close> for every bound on the stack,
  so \<^verbatim>\<open>Send\<close> does not return; with room for \<open>depth\<close> nested calls the counter of the bus
  has grown by \<open>depth\<close>, and with room for one more the dead-letter handler has been called
  \<open>depth\<close> times. Neither number stays at the value the test asserts.
\<close>

theorem Send_test_scenario_never_returns:
  assumes tbl: "handlers (bus st) = handlers test_bus \<or> handlers (bus st) = rev (handlers test_bus)"
  shows "fst (Send depth test_env (Some (newTestEventDetailed ''suzy'' ''Reg 1'' None)) st) =
           OutOfStack \<and>
         Sent (bus (snd (Send depth test_env
           (Some (newTestEventDetailed ''suzy'' ''Reg 1'' None)) st))) = Sent (bus st) + int depth \<and>
         failed (world (snd (Send (Suc depth) test_env
           (Some (newTestEventDetailed ''suzy'' ''Reg 1'' None)) st))) =
           failed (world st) + int depth"
proof -
  let ?ev = "newTestEventDetailed ''suzy'' ''Reg 1'' None"
  let ?dl = "NewDeadLetterEvent ?ev ''expected Reg 2, got Reg 1'' (Some [1])"
  let ?st1 = "st\<lparr>bus := (bus st)\<lparr>sent := sent (bus st) + 1\<rparr>,
           trace := trace st @
             [Call ?ev, Invoke 0 ?ev RetNil, Invoke 1 ?ev (RetErr ''expected Reg 2, got Reg 1'')]\<rparr>"
  have first: "Send (Suc k) test_env (Some ?ev) st =
      (OutOfStack, snd (Send k test_env (Some ?dl) ?st1))" for k
    using tbl by (rule test_first_send)
  have tbl1: "handlers (bus ?st1) = handlers test_bus \<or>
      handlers (bus ?st1) = rev (handlers test_bus)"
    using tbl by simp
  have loop: "sent (bus (snd (Send k test_env (Some ?dl) ?st1))) = sent (bus st) + 1 + int k \<and>
      failed (world (snd (Send k test_env (Some ?dl) ?st1))) = failed (world st) + int k" for k
    using test_dead_letter_loop [OF tbl1, of ?dl "Some [1]" k]
    by (simp add: NewDeadLetterEvent_simps)
  have later: "failed (world (snd (Send (Suc depth) test_env (Some ?ev) st))) =
      failed (world st) + int depth"
    unfolding first using loop [of depth] by simp
  show ?thesis
  proof (cases depth)
    case 0
    then show ?thesis
      using later by (simp add: Sent_def)
  next
    case (Suc n)
    have "fst (Send depth test_env (Some ?ev) st) = OutOfStack"
      unfolding Suc first by simp
    moreover have "Sent (bus (snd (Send depth test_env (Some ?ev) st))) = Sent (bus st) + int depth"
      unfolding Suc first using loop [of n] by (simp add: Sent_def)
    ultimately show ?thesis
      using later by simp
  qed
qed

text \<open>With room for three nested calls the dead-letter handler has already been called
  twice and the counter is 3.\<close>

theorem Send_test_scenario_never_returns_witness:
  "fst (Send 3 test_env (Some (newTestEventDetailed ''suzy'' ''Reg 1'' None)) test_state) =
     OutOfStack \<and>
   Sent (bus (snd (Send 3 test_env (Some (newTestEventDetailed ''suzy'' ''Reg 1'' None))
     test_state))) = 3 \<and>
   failed (world (snd (Send 3 test_env (Some (newTestEventDetailed ''suzy'' ''Reg 1'' None))
     test_state))) = 2"
proof -
  have tbl: "handlers (bus test_state) = handlers test_bus \<or>
      handlers (bus test_state) = rev (handlers test_bus)"
    by (simp add: test_state_def)
  have sent0: "Sent (bus test_state) = 0"
    by (simp add: Sent_def test_state_def test_bus_def Register_def RegisterHandler_def
        Reset_def newBus_def split: option.splits)
  have failed0: "failed (world test_state) = 0"
    by (simp add: test_state_def test_vars0_def)
  have three: "Suc 2 = 3"
    by simp
  show ?thesis
    using Send_test_scenario_never_returns [OF tbl, of 3]
      Send_test_scenario_never_returns [OF tbl, of 2] sent0 failed0
    by (simp only: three) simp
qed

end
